theory Spec2Isabelle
  imports Main "HOL-Library.Word" "HOL-Library.Sublist"
begin

section \<open>certmagic-mongodb: a shallow embedding of mongoStore.go\<close>

text \<open>
  The Go file implements \<^verbatim>\<open>certmagic.Storage\<close> on two MongoDB collections,
  \<^verbatim>\<open>certmagic-storage\<close> (records) and \<^verbatim>\<open>certmagic-locks\<close> (locks).
  The MongoDB driver is not part of the repository, so the contents of a collection
  are an explicit argument of every operation (a list of documents in the store's
  natural order) and are returned updated. Whatever the driver reports instead of
  doing its work (medium unreachable, context already cancelled, ...) is the
  argument \<open>fault\<close> of the call: \<open>None\<close> when the driver does its work,
  \<open>Some e\<close> when it returns the error \<open>e\<close>.
\<close>

subsection \<open>Errors\<close>

text \<open>
  Go's \<^verbatim>\<open>error\<close> values. \<open>Wrapped msg e\<close> is
  \<^verbatim>\<open>fmt.Errorf("<msg>: %w", e)\<close>; the other constructors are the sentinel
  errors the file names, and \<open>MediumError\<close> stands for every other driver error.
\<close>

datatype error =
    ErrNoDocuments
  | DuplicateKeyError
  | ErrNotExist
  | Canceled
  | DeadlineExceeded
  | MediumError string
  | Wrapped string error

text \<open>\<^verbatim>\<open>errors.Is\<close>: the target is looked for along the chain of wrapped errors.\<close>

fun errors_Is :: "error \<Rightarrow> error \<Rightarrow> bool" where
  "errors_Is (Wrapped msg inner) target =
     (if Wrapped msg inner = target then True else errors_Is inner target)"
| "errors_Is e target = (e = target)"

definition IsDuplicateKeyError :: "error \<Rightarrow> bool" where
  "IsDuplicateKeyError err = errors_Is err DuplicateKeyError"

subsection \<open>Documents and the storage handle\<close>

type_synonym bytes = "8 word list"

text \<open>A document of \<^verbatim>\<open>certmagic-storage\<close>: \<^verbatim>\<open>{key, value, ts}\<close>.\<close>

record cert_doc =
  doc_key :: string
  doc_value :: bytes
  doc_ts :: nat

text \<open>A document of \<^verbatim>\<open>certmagic-locks\<close>: \<^verbatim>\<open>{key, instance, expires_at}\<close>.\<close>

record lock_doc =
  lock_key :: string
  lock_instance :: string
  lock_expires_at :: nat

text \<open>
  Times and durations are natural numbers of nanoseconds, as \<^verbatim>\<open>time.Duration\<close>
  counts them.
\<close>

definition Second :: nat where
  "Second = 1000000000"

text \<open>
  \<^verbatim>\<open>type MongoStorage struct\<close>. The two collection handles are the (database,
  collection) names they were made from.
\<close>

record MongoStorage =
  Collection :: "string \<times> string"
  Locks :: "string \<times> string"
  LockTTL :: nat
  InstanceID :: string

subsection \<open>The driver's operations on a collection\<close>

text \<open>
  \<^verbatim>\<open>UpdateOne(filter, {"$set": ...}, SetUpsert(true))\<close>: the first document that
  matches the filter is updated; when none matches, the upserted document is inserted.
\<close>

fun update_first :: "('a \<Rightarrow> bool) \<Rightarrow> ('a \<Rightarrow> 'a) \<Rightarrow> 'a list \<Rightarrow> 'a list option" where
  "update_first P f [] = None"
| "update_first P f (d # ds) =
     (if P d then Some (f d # ds)
      else (case update_first P f ds of None \<Rightarrow> None | Some ds' \<Rightarrow> Some (d # ds')))"

definition UpdateOne_upsert ::
  "error option \<Rightarrow> ('a \<Rightarrow> bool) \<Rightarrow> ('a \<Rightarrow> 'a) \<Rightarrow> 'a \<Rightarrow> 'a list \<Rightarrow> error + 'a list" where
  "UpdateOne_upsert fault P f new docs =
     (case fault of
        Some e \<Rightarrow> Inl e
      | None \<Rightarrow>
          (case update_first P f docs of
             Some docs' \<Rightarrow> Inr docs'
           | None \<Rightarrow> Inr (docs @ [new])))"

text \<open>\<^verbatim>\<open>FindOne(filter).Decode\<close>: the first match, or \<^verbatim>\<open>mongo.ErrNoDocuments\<close>.\<close>

definition FindOne :: "error option \<Rightarrow> ('a \<Rightarrow> bool) \<Rightarrow> 'a list \<Rightarrow> error + 'a" where
  "FindOne fault P docs =
     (case fault of
        Some e \<Rightarrow> Inl e
      | None \<Rightarrow> (case find P docs of None \<Rightarrow> Inl ErrNoDocuments | Some d \<Rightarrow> Inr d))"

text \<open>
  \<^verbatim>\<open>DeleteOne(filter)\<close>: removes the first match. The driver returns the number
  of documents deleted (0 or 1) with a nil error also when nothing matched.
\<close>

fun delete_first :: "('a \<Rightarrow> bool) \<Rightarrow> 'a list \<Rightarrow> nat \<times> 'a list" where
  "delete_first P [] = (0, [])"
| "delete_first P (d # ds) =
     (if P d then (1, ds)
      else (case delete_first P ds of (n, ds') \<Rightarrow> (n, d # ds')))"

definition DeleteOne :: "error option \<Rightarrow> ('a \<Rightarrow> bool) \<Rightarrow> 'a list \<Rightarrow> error + (nat \<times> 'a list)" where
  "DeleteOne fault P docs =
     (case fault of Some e \<Rightarrow> Inl e | None \<Rightarrow> Inr (delete_first P docs))"

text \<open>\<^verbatim>\<open>CountDocuments(filter)\<close>: the count and the error, 0 with an error.\<close>

definition CountDocuments :: "error option \<Rightarrow> ('a \<Rightarrow> bool) \<Rightarrow> 'a list \<Rightarrow> int \<times> error option" where
  "CountDocuments fault P docs =
     (case fault of
        Some e \<Rightarrow> (0, Some e)
      | None \<Rightarrow> (int (length (filter P docs)), None))"

subsection \<open>The record store: Store, Load, Delete, Exists\<close>

text \<open>
  \<^verbatim>\<open>Store\<close>: an upsert of \<^verbatim>\<open>{key, value, ts: time.Now()}\<close> under the filter
  \<^verbatim>\<open>{key: key}\<close>; the driver's error is returned as it is.
\<close>

definition Store ::
  "MongoStorage \<Rightarrow> error option \<Rightarrow> nat \<Rightarrow> cert_doc list \<Rightarrow> string \<Rightarrow> bytes \<Rightarrow> error + cert_doc list" where
  "Store m fault now docs key val =
     UpdateOne_upsert fault (\<lambda>d. doc_key d = key)
       (\<lambda>d. d\<lparr>doc_key := key, doc_value := val, doc_ts := now\<rparr>)
       \<lparr>doc_key = key, doc_value = val, doc_ts = now\<rparr> docs"

text \<open>
  \<^verbatim>\<open>Load\<close>: \<^verbatim>\<open>mongo.ErrNoDocuments\<close> becomes an error that wraps
  \<^verbatim>\<open>os.ErrNotExist\<close>; any other error is returned as it is.
\<close>

definition Load :: "MongoStorage \<Rightarrow> error option \<Rightarrow> cert_doc list \<Rightarrow> string \<Rightarrow> error + bytes" where
  "Load m fault docs key =
     (case FindOne fault (\<lambda>d. doc_key d = key) docs of
        Inl err \<Rightarrow>
          (if err = ErrNoDocuments
           then Inl (Wrapped (''MongoStorage.Load key '' @ key @ '' not found'') ErrNotExist)
           else Inl err)
      | Inr result \<Rightarrow> Inr (doc_value result))"

text \<open>\<^verbatim>\<open>Delete\<close>: the driver's result is dropped, only its error is looked at.\<close>

definition Delete :: "MongoStorage \<Rightarrow> error option \<Rightarrow> cert_doc list \<Rightarrow> string \<Rightarrow> error + cert_doc list" where
  "Delete m fault docs key =
     (case DeleteOne fault (\<lambda>d. doc_key d = key) docs of
        Inl err \<Rightarrow> Inl err
      | Inr (n, docs') \<Rightarrow> Inr docs')"

text \<open>\<^verbatim>\<open>Exists\<close>: the error of the count is dropped.\<close>

definition Exists :: "MongoStorage \<Rightarrow> error option \<Rightarrow> cert_doc list \<Rightarrow> string \<Rightarrow> bool" where
  "Exists m fault docs key =
     (case CountDocuments fault (\<lambda>d. doc_key d = key) docs of (count, err) \<Rightarrow> count > 0)"

subsection \<open>The record store: List\<close>

text \<open>
  \<^verbatim>\<open>List\<close> asks the store for the documents whose key matches the regular
  expression \<^verbatim>\<open>"^" + prefix\<close>; the prefix is put into the pattern as it is.
  The store's regular expressions are Perl-compatible. The model covers the patterns
  made of \<^verbatim>\<open>^\<close> followed by ordinary characters and dots, where a dot matches
  every character but a newline; for a pattern with any other metacharacter
  \<open>regex_supported\<close> is false and the model of \<^verbatim>\<open>List\<close> gives \<open>None\<close>,
  which says nothing about the code there.

  A Go string is a sequence of bytes, and keys and prefixes are UTF-8 text (a BSON
  string is). The store matches by characters: an ordinary character of the pattern
  is its bytes, one after the other, and a dot takes one whole character of the key,
  that is its first byte and the continuation bytes (\<^verbatim>\<open>0x80\<close> to
  \<^verbatim>\<open>0xBF\<close>) that follow it.
\<close>

definition regex_meta :: "char list" where
  "regex_meta = [CHR ''^'', CHR ''$'', CHR ''*'', CHR ''+'', CHR ''?'', CHR ''('', CHR '')'',
                 CHR ''['', CHR '']'', CHR ''{'', CHR ''}'', CHR ''|'', CHR 0x5C]"

definition regex_supported :: "string \<Rightarrow> bool" where
  "regex_supported pattern =
     (case pattern of
        [] \<Rightarrow> False
      | c # ps \<Rightarrow> c = CHR ''^'' \<and> list_all (\<lambda>p. p \<notin> set regex_meta) ps)"

definition utf8_continuation :: "char \<Rightarrow> bool" where
  "utf8_continuation c = (128 \<le> (of_char c :: nat) \<and> (of_char c :: nat) < 192)"

fun match_atoms :: "string \<Rightarrow> string \<Rightarrow> bool" where
  "match_atoms [] s = True"
| "match_atoms (p # ps) [] = False"
| "match_atoms (p # ps) (c # cs) =
     (if p = CHR ''.''
      then c \<noteq> CHR 0x0A \<and> match_atoms ps (dropWhile utf8_continuation cs)
      else c = p \<and> match_atoms ps cs)"

definition regex_match :: "string \<Rightarrow> string \<Rightarrow> bool" where
  "regex_match pattern s = match_atoms (tl pattern) s"

text \<open>
  \<^verbatim>\<open>Find(filter)\<close> gives a cursor over the matching documents, or an error. A
  cursor may break while it is read: \<open>cursor_fault = Some (n, e)\<close> is a cursor that
  delivers \<open>n\<close> documents and then stops with \<^verbatim>\<open>cursor.Err() = e\<close>.
\<close>

record cursor =
  cur_docs :: "cert_doc list"
  cur_err :: "error option"

definition Find_regex ::
  "error option \<Rightarrow> (nat \<times> error) option \<Rightarrow> string \<Rightarrow> cert_doc list \<Rightarrow> error + cursor" where
  "Find_regex fault cursor_fault pattern docs =
     (case fault of
        Some e \<Rightarrow> Inl e
      | None \<Rightarrow>
          (let matches = filter (\<lambda>d. regex_match pattern (doc_key d)) docs
           in case cursor_fault of
                None \<Rightarrow> Inr \<lparr>cur_docs = matches, cur_err = None\<rparr>
              | Some (n, e) \<Rightarrow> Inr \<lparr>cur_docs = take n matches, cur_err = Some e\<rparr>))"

text \<open>The loop \<^verbatim>\<open>for cursor.Next(ctx) { ... keys = append(keys, doc.Key) }\<close>.\<close>

fun cursor_keys :: "cert_doc list \<Rightarrow> string list \<Rightarrow> string list" where
  "cursor_keys [] keys = keys"
| "cursor_keys (d # ds) keys = cursor_keys ds (keys @ [doc_key d])"

text \<open>
  \<^verbatim>\<open>List\<close> returns the pair \<^verbatim>\<open>(keys, error)\<close>: \<^verbatim>\<open>(nil, err)\<close> when
  \<^verbatim>\<open>Find\<close> fails, and otherwise the keys read with \<^verbatim>\<open>cursor.Err()\<close>. The
  parameter \<^verbatim>\<open>recursive\<close> is not used by the body.
\<close>

definition List_keys ::
  "MongoStorage \<Rightarrow> error option \<Rightarrow> (nat \<times> error) option \<Rightarrow> cert_doc list \<Rightarrow> string \<Rightarrow> bool \<Rightarrow>
   (string list \<times> error option) option" where
  "List_keys m fault cursor_fault docs pfx recursive =
     (let pattern = ''^'' @ pfx
      in if \<not> regex_supported pattern then None
         else (case Find_regex fault cursor_fault pattern docs of
                 Inl err \<Rightarrow> Some ([], Some err)
               | Inr cur \<Rightarrow> Some (cursor_keys (cur_docs cur) [], cur_err cur)))"

subsection \<open>The constructor\<close>

text \<open>
  \<^verbatim>\<open>os.Hostname()\<close> returns the pair \<^verbatim>\<open>(name, err)\<close>, the name empty when
  the lookup fails. The argument is what the operating system answers.
\<close>

definition os_Hostname :: "error + string \<Rightarrow> string \<times> error option" where
  "os_Hostname answer = (case answer of Inl e \<Rightarrow> ([], Some e) | Inr name \<Rightarrow> (name, None))"

text \<open>
  \<^verbatim>\<open>NewMongoStorage\<close>: \<open>index_fault\<close> is the error of creating the two indexes on
  the lock collection (a unique index on \<^verbatim>\<open>key\<close>, a TTL index on
  \<^verbatim>\<open>expires_at\<close> with \<^verbatim>\<open>expireAfterSeconds = 0\<close>); the error of
  \<^verbatim>\<open>os.Hostname\<close> is dropped.
\<close>

definition NewMongoStorage :: "error option \<Rightarrow> error + string \<Rightarrow> string \<Rightarrow> error + MongoStorage" where
  "NewMongoStorage index_fault host_answer database =
     (case index_fault of
        Some err \<Rightarrow> Inl err
      | None \<Rightarrow>
          (case os_Hostname host_answer of
             (hostname, _) \<Rightarrow>
               Inr \<lparr>Collection = (database, ''certmagic-storage''),
                    Locks = (database, ''certmagic-locks''),
                    LockTTL = 60 * Second,
                    InstanceID = hostname\<rparr>))"

subsection \<open>The lock manager: Lock and Unlock\<close>

text \<open>
  \<^verbatim>\<open>InsertOne\<close> into the lock collection, under the unique index on
  \<^verbatim>\<open>key\<close> that \<^verbatim>\<open>NewMongoStorage\<close> creates: the insert is refused with a
  duplicate-key error when a document with the same key is there.
\<close>

definition InsertOne_unique :: "error option \<Rightarrow> lock_doc list \<Rightarrow> lock_doc \<Rightarrow> error + lock_doc list" where
  "InsertOne_unique fault docs doc =
     (case fault of
        Some e \<Rightarrow> Inl e
      | None \<Rightarrow>
          (if list_ex (\<lambda>d. lock_key d = lock_key doc) docs then Inl DuplicateKeyError
           else Inr (docs @ [doc])))"

text \<open>
  The store's TTL index with \<^verbatim>\<open>expireAfterSeconds = 0\<close>: a sweep at time
  \<open>now\<close> removes the lock documents whose \<^verbatim>\<open>expires_at\<close> has been reached.
\<close>

definition expire :: "nat \<Rightarrow> lock_doc list \<Rightarrow> lock_doc list" where
  "expire now docs = filter (\<lambda>d. now < lock_expires_at d) docs"

text \<open>
  A \<^verbatim>\<open>context.Context\<close>, by the instant at which its \<^verbatim>\<open>Done\<close> channel is
  closed.
\<close>

datatype Context = Background | WithCancel nat | WithDeadline nat

fun ctx_Done :: "Context \<Rightarrow> nat \<Rightarrow> bool" where
  "ctx_Done Background now = False"
| "ctx_Done (WithCancel t) now = (t \<le> now)"
| "ctx_Done (WithDeadline t) now = (t \<le> now)"

fun ctx_Err :: "Context \<Rightarrow> error" where
  "ctx_Err (WithDeadline t) = DeadlineExceeded"
| "ctx_Err ctx = Canceled"

text \<open>
  One turn of the loop of \<^verbatim>\<open>Lock\<close> at time \<open>now\<close>: the \<^verbatim>\<open>select\<close> on
  \<^verbatim>\<open>ctx.Done()\<close>, then the insert and the three ways it ends. \<open>Retry\<close> is the
  branch that sleeps and continues.
\<close>

datatype iteration = Return "error + lock_doc list" | Retry

definition Lock_iter ::
  "Context \<Rightarrow> string \<Rightarrow> lock_doc \<Rightarrow> nat \<Rightarrow> error option \<Rightarrow> lock_doc list \<Rightarrow> iteration" where
  "Lock_iter ctx key lock now fault docs =
     (if ctx_Done ctx now
      then Return (Inl (Wrapped (''timeout acquiring lock for key '' @ key) (ctx_Err ctx)))
      else (case InsertOne_unique fault docs lock of
              Inr docs' \<Rightarrow> Return (Inr docs')
            | Inl err \<Rightarrow>
                (if IsDuplicateKeyError err then Retry
                 else Return (Inl (Wrapped (''error trying to acquire lock for key '' @ key) err)))))"

text \<open>
  The loop. It has no bound of its own, so it runs against a schedule: the k-th
  entry is what the k-th turn meets, the driver's fault (if any) and the lock
  collection as the other processes and the store's expiry have left it. The clock
  moves only in \<^verbatim>\<open>time.Sleep(2 * time.Second)\<close>. The result is the value
  returned (the collection after the insert when it is nil) and the time of the
  return; \<open>None\<close> means that the schedule ended before the loop returned.
\<close>

fun lock_loop ::
  "Context \<Rightarrow> string \<Rightarrow> lock_doc \<Rightarrow> (error option \<times> lock_doc list) list \<Rightarrow> nat \<Rightarrow>
   ((error + lock_doc list) \<times> nat) option" where
  "lock_loop ctx key lock [] now = None"
| "lock_loop ctx key lock ((fault, docs) # rest) now =
     (case Lock_iter ctx key lock now fault docs of
        Return r \<Rightarrow> Some (r, now)
      | Retry \<Rightarrow> lock_loop ctx key lock rest (now + 2 * Second))"

text \<open>
  \<^verbatim>\<open>Lock\<close>, entered at time \<open>now\<close>: the expiration and the lock document are
  made once, before the loop.
\<close>

definition lock_document :: "MongoStorage \<Rightarrow> string \<Rightarrow> nat \<Rightarrow> lock_doc" where
  "lock_document m key now =
     (let expiration = now + LockTTL m
      in \<lparr>lock_key = key, lock_instance = InstanceID m, lock_expires_at = expiration\<rparr>)"

definition Lock ::
  "MongoStorage \<Rightarrow> Context \<Rightarrow> string \<Rightarrow> (error option \<times> lock_doc list) list \<Rightarrow> nat \<Rightarrow>
   ((error + lock_doc list) \<times> nat) option" where
  "Lock m ctx key sched now = lock_loop ctx key (lock_document m key now) sched now"

text \<open>
  A turn of the schedule at which the key is held: the store is in working order and
  the lock collection has a document for the key.
\<close>

fun held :: "string \<Rightarrow> error option \<times> lock_doc list \<Rightarrow> bool" where
  "held key (fault, docs) = (fault = None \<and> list_ex (\<lambda>d. lock_key d = key) docs)"

text \<open>\<^verbatim>\<open>Unlock\<close>: the driver's result is dropped, only its error is looked at.\<close>

definition Unlock :: "MongoStorage \<Rightarrow> error option \<Rightarrow> lock_doc list \<Rightarrow> string \<Rightarrow> error + lock_doc list" where
  "Unlock m fault docs key =
     (case DeleteOne fault (\<lambda>d. lock_key d = key \<and> lock_instance d = InstanceID m) docs of
        Inl err \<Rightarrow> Inl (Wrapped (''failed to release lock for key '' @ key) err)
      | Inr (n, docs') \<Rightarrow> Inr docs')"

subsection \<open>Several callers on one lock collection\<close>

text \<open>
  The store runs each insert, delete and expiry sweep atomically, so a run of
  several processes is a sequence of events on the one lock collection, in the
  order in which the store serves them: a turn of the loop of some caller's
  \<^verbatim>\<open>Lock\<close> (the caller entered \<^verbatim>\<open>Lock\<close> at time \<open>entry\<close>, the turn
  happens at time \<open>now\<close>), a call of \<^verbatim>\<open>Unlock\<close>, or a sweep of the TTL index.
\<close>

datatype event =
    Attempt MongoStorage Context string nat nat "error option"
  | Release MongoStorage string "error option"
  | Sweep nat

datatype outcome = Acquired | Conflict | Failed error | Released | Swept

fun step :: "event \<Rightarrow> lock_doc list \<Rightarrow> outcome \<times> lock_doc list" where
  "step (Attempt m ctx key entry now fault) docs =
     (case Lock_iter ctx key (lock_document m key entry) now fault docs of
        Return (Inr docs') \<Rightarrow> (Acquired, docs')
      | Return (Inl err) \<Rightarrow> (Failed err, docs)
      | Retry \<Rightarrow> (Conflict, docs))"
| "step (Release m key fault) docs =
     (case Unlock m fault docs key of
        Inr docs' \<Rightarrow> (Released, docs')
      | Inl err \<Rightarrow> (Failed err, docs))"
| "step (Sweep now) docs = (Swept, expire now docs)"

fun run :: "event list \<Rightarrow> lock_doc list \<Rightarrow> outcome list \<times> lock_doc list" where
  "run [] docs = ([], docs)"
| "run (e # es) docs =
     (case step e docs of
        (out, docs') \<Rightarrow> (case run es docs' of (outs, docs'') \<Rightarrow> (out # outs, docs'')))"





subsection \<open>Example values\<close>

text \<open>Two storages as \<^verbatim>\<open>NewMongoStorage\<close> builds them on hosts of different names.\<close>

abbreviation host_a :: MongoStorage where
  "host_a \<equiv> \<lparr>Collection = (''db'', ''certmagic-storage''), Locks = (''db'', ''certmagic-locks''),
              LockTTL = 60 * Second, InstanceID = ''host-a''\<rparr>"

abbreviation host_b :: MongoStorage where
  "host_b \<equiv> \<lparr>Collection = (''db'', ''certmagic-storage''), Locks = (''db'', ''certmagic-locks''),
              LockTTL = 60 * Second, InstanceID = ''host-b''\<rparr>"

abbreviation rec_a1 :: cert_doc where
  "rec_a1 \<equiv> \<lparr>doc_key = ''a/1'', doc_value = [1, 2, 3], doc_ts = 1\<rparr>"

abbreviation rec_b1 :: cert_doc where
  "rec_b1 \<equiv> \<lparr>doc_key = ''b/1'', doc_value = [7], doc_ts = 1\<rparr>"

abbreviation lock_xb :: lock_doc where
  "lock_xb \<equiv> \<lparr>lock_key = ''cert-x'', lock_instance = ''host-b'', lock_expires_at = 50 * Second\<rparr>"

abbreviation lock_xc :: lock_doc where
  "lock_xc \<equiv> \<lparr>lock_key = ''cert-x'', lock_instance = ''host-c'', lock_expires_at = 110 * Second\<rparr>"

abbreviation rec_a2 :: cert_doc where
  "rec_a2 \<equiv> \<lparr>doc_key = ''a/2'', doc_value = [], doc_ts = 2\<rparr>"

text \<open>
  A turn of \<^verbatim>\<open>Lock("cert-x")\<close>, entered at time 0 with a context that is never
  cancelled, by a process on host a and by one on host b, at time \<open>now\<close>.
\<close>

abbreviation try_a :: "nat \<Rightarrow> event" where
  "try_a now \<equiv> Attempt host_a Background ''cert-x'' 0 now None"

abbreviation try_b :: "nat \<Rightarrow> event" where
  "try_b now \<equiv> Attempt host_b Background ''cert-x'' 0 now None"

section \<open>Properties of the record store\<close>

lemma find_update_first:
  "update_first P f docs = Some docs' \<Longrightarrow> (\<And>d. P d \<Longrightarrow> P (f d)) \<Longrightarrow>
   find P docs' = map_option f (find P docs)"
  by (induction docs arbitrary: docs') (auto split: if_splits option.splits)

lemma update_first_None:
  "update_first P f docs = None \<Longrightarrow> find P docs = None"
  by (induction docs) (auto split: if_splits option.splits)

lemma find_absent:
  "k \<notin> set (map doc_key docs) \<Longrightarrow> find (\<lambda>d. doc_key d = k) docs = None"
  by (induction docs) auto

lemma delete_first_absent:
  "\<not> list_ex P docs \<Longrightarrow> delete_first P docs = (0, docs)"
  by (induction docs) auto

lemma find_snoc_new:
  "find P docs = None \<Longrightarrow> P d \<Longrightarrow> find P (docs @ [d]) = Some d"
  by (induction docs) (auto split: if_splits)

lemma update_first_Some_find:
  "update_first P f docs = Some docs' \<Longrightarrow> find P docs \<noteq> None"
  by (induction docs arbitrary: docs') (auto split: if_splits option.splits)

lemma delete_first_distinct:
  "distinct (map f docs) \<Longrightarrow> delete_first (\<lambda>d. f d = k) docs = (n, docs') \<Longrightarrow>
   \<not> list_ex (\<lambda>d. f d = k) docs'"
  by (induction docs arbitrary: n docs')
     (force simp: list_ex_iff image_iff split: if_splits prod.splits)+

text \<open>
  Claim C6. With the store in working order, \<^verbatim>\<open>Store(K, V)\<close> followed by
  \<^verbatim>\<open>Load(K)\<close> returns exactly \<open>V\<close>, whatever the collection held before.
  \<^verbatim>\<open>Load\<close> of a key that no document has returns an error that wraps
  \<^verbatim>\<open>os.ErrNotExist\<close>, while every other error of the driver is returned as it
  is, so the two can be told apart with \<^verbatim>\<open>errors.Is\<close>.
\<close>

theorem Store_Load_roundtrip:
  "(\<exists>docs'. Store m None now docs k v = Inr docs' \<and> Load m None docs' k = Inr v)
   \<and> (k \<notin> set (map doc_key absent) \<longrightarrow>
        Load m None absent k =
          Inl (Wrapped (''MongoStorage.Load key '' @ k @ '' not found'') ErrNotExist)
        \<and> errors_Is (Wrapped (''MongoStorage.Load key '' @ k @ '' not found'') ErrNotExist)
             ErrNotExist)
   \<and> (e \<noteq> ErrNoDocuments \<longrightarrow> Load m (Some e) docs k = Inl e)"
proof (intro conjI impI)
  let ?P = "\<lambda>d. doc_key d = k"
  let ?f = "\<lambda>d. d\<lparr>doc_key := k, doc_value := v, doc_ts := now\<rparr>"
  show "\<exists>docs'. Store m None now docs k v = Inr docs' \<and> Load m None docs' k = Inr v"
  proof (cases "update_first ?P ?f docs")
    case None
    then have "find ?P docs = None"
      by (rule update_first_None)
    then have "find ?P (docs @ [\<lparr>doc_key = k, doc_value = v, doc_ts = now\<rparr>])
               = Some \<lparr>doc_key = k, doc_value = v, doc_ts = now\<rparr>"
      by (simp add: find_snoc_new)
    with None show ?thesis
      by (simp add: Store_def UpdateOne_upsert_def Load_def FindOne_def)
  next
    case (Some docs')
    then have "find ?P docs' = map_option ?f (find ?P docs)"
      by (rule find_update_first) simp
    moreover from Some have "find ?P docs \<noteq> None"
      by (rule update_first_Some_find)
    ultimately show ?thesis using Some
      by (auto simp: Store_def UpdateOne_upsert_def Load_def FindOne_def)
  qed
next
  assume "k \<notin> set (map doc_key absent)"
  then show "Load m None absent k =
      Inl (Wrapped (''MongoStorage.Load key '' @ k @ '' not found'') ErrNotExist)"
    by (simp add: Load_def FindOne_def find_absent)
next
  show "errors_Is (Wrapped (''MongoStorage.Load key '' @ k @ '' not found'') ErrNotExist) ErrNotExist"
    by simp
next
  assume "e \<noteq> ErrNoDocuments"
  then show "Load m (Some e) docs k = Inl e"
    by (simp add: Load_def FindOne_def)
qed

theorem Store_Load_roundtrip_witness:
  "''a/1'' \<notin> set (map doc_key [rec_b1])
   \<and> MediumError ''unreachable'' \<noteq> ErrNoDocuments
   \<and> (\<exists>docs'. Store host_a None 5 [rec_a1, rec_b1] ''a/1'' [4, 5] = Inr docs'
        \<and> Load host_a None docs' ''a/1'' = Inr [4, 5])
   \<and> Load host_a None [rec_b1] ''a/1''
       = Inl (Wrapped ''MongoStorage.Load key a/1 not found'' ErrNotExist)
   \<and> Load host_a (Some (MediumError ''unreachable'')) [rec_a1, rec_b1] ''a/1''
       = Inl (MediumError ''unreachable'')"
  using Store_Load_roundtrip
    [where m = host_a and now = 5 and docs = "[rec_a1, rec_b1]" and absent = "[rec_b1]"
       and k = "''a/1''" and v = "[4, 5]" and e = "MediumError ''unreachable''"]
  by simp

text \<open>
  Claim C7. \<^verbatim>\<open>Delete(K)\<close> on a collection with no document for \<open>K\<close> succeeds
  and leaves the collection as it is; and with the store in working order a
  \<^verbatim>\<open>Delete(K)\<close> right after a \<^verbatim>\<open>Delete(K)\<close> succeeds too (when the keys of
  the collection are distinct, the second one finds nothing and changes nothing).
\<close>

theorem Delete_idempotent:
  "(k \<notin> set (map doc_key absent) \<longrightarrow> Delete m None absent k = Inr absent)
   \<and> (\<exists>docs1 docs2.
         Delete m None docs k = Inr docs1 \<and> Delete m None docs1 k = Inr docs2
         \<and> (distinct (map doc_key docs) \<longrightarrow> k \<notin> set (map doc_key docs1) \<and> docs2 = docs1))"
proof (intro conjI impI)
  assume "k \<notin> set (map doc_key absent)"
  then have "\<not> list_ex (\<lambda>d. doc_key d = k) absent"
    by (auto simp: list_ex_iff)
  then show "Delete m None absent k = Inr absent"
    by (simp add: Delete_def DeleteOne_def delete_first_absent)
next
  obtain n docs1 where d1: "delete_first (\<lambda>d. doc_key d = k) docs = (n, docs1)"
    by (cases "delete_first (\<lambda>d. doc_key d = k) docs")
  obtain n2 docs2 where d2: "delete_first (\<lambda>d. doc_key d = k) docs1 = (n2, docs2)"
    by (cases "delete_first (\<lambda>d. doc_key d = k) docs1")
  have gone: "\<not> list_ex (\<lambda>d. doc_key d = k) docs1" if "distinct (map doc_key docs)"
    using that d1 by (rule delete_first_distinct)
  then have "k \<notin> set (map doc_key docs1) \<and> docs2 = docs1" if "distinct (map doc_key docs)"
    using that d2 by (auto simp: delete_first_absent list_ex_iff)
  with d1 d2 show "\<exists>docs1 docs2.
         Delete m None docs k = Inr docs1 \<and> Delete m None docs1 k = Inr docs2
         \<and> (distinct (map doc_key docs) \<longrightarrow> k \<notin> set (map doc_key docs1) \<and> docs2 = docs1)"
    by (auto simp: Delete_def DeleteOne_def)
qed

theorem Delete_idempotent_witness:
  "''a/1'' \<notin> set (map doc_key [rec_b1])
   \<and> distinct (map doc_key [rec_a1, rec_b1])
   \<and> Delete host_a None [rec_b1] ''a/1'' = Inr [rec_b1]
   \<and> (\<exists>docs1 docs2.
         Delete host_a None [rec_a1, rec_b1] ''a/1'' = Inr docs1
         \<and> Delete host_a None docs1 ''a/1'' = Inr docs2
         \<and> ''a/1'' \<notin> set (map doc_key docs1) \<and> docs2 = docs1)"
  using Delete_idempotent
    [where m = host_a and docs = "[rec_a1, rec_b1]" and absent = "[rec_b1]" and k = "''a/1''"]
  by simp

text \<open>
  Claim C8. \<^verbatim>\<open>Exists\<close> returns a boolean for every input, never an error: it
  is true exactly when the count succeeded and some document has the key, so
  every error of the store gives the same \<open>False\<close> as an absent key.
\<close>

theorem Exists_count:
  "Exists m fault docs k = (fault = None \<and> k \<in> set (map doc_key docs))"
  by (cases fault) (auto simp: Exists_def CountDocuments_def filter_empty_conv)

subsection \<open>List\<close>

lemma cursor_keys_map: "cursor_keys ds keys = keys @ map doc_key ds"
  by (induction ds arbitrary: keys) auto

text \<open>
  Claim C9 says that \<^verbatim>\<open>List(P)\<close> returns exactly the keys that start with
  \<open>P\<close>. The code puts the prefix into the regular expression as it is, so a dot
  of the prefix matches any character: with the keys \<^verbatim>\<open>a.b/1\<close> and
  \<^verbatim>\<open>axb/1\<close> stored, \<^verbatim>\<open>List("a.b")\<close> returns both, and the second does
  not start with \<^verbatim>\<open>a.b\<close>.
\<close>

theorem List_unescaped_prefix:
  "List_keys host_a None None
     [\<lparr>doc_key = ''a.b/1'', doc_value = [], doc_ts = 0\<rparr>,
      \<lparr>doc_key = ''axb/1'', doc_value = [], doc_ts = 0\<rparr>]
     ''a.b'' False
   = Some ([''a.b/1'', ''axb/1''], None)
   \<and> \<not> prefix ''a.b'' ''axb/1''"
  by (simp add: List_keys_def regex_supported_def regex_meta_def Find_regex_def regex_match_def
        utf8_continuation_def)

text \<open>
  What does hold: for a prefix with no metacharacter and no dot, the keys returned
  are exactly the stored keys that start with it, in the order of the collection;
  the flag \<^verbatim>\<open>recursive\<close> never changes the result; and the example of the
  specification comes out as it says.
\<close>

lemma match_atoms_plain:
  "list_all (\<lambda>p. p \<noteq> CHR ''.'') ps \<Longrightarrow> match_atoms ps s = prefix ps s"
  by (induction ps s rule: match_atoms.induct) auto

lemma List_keys_plain:
  "regex_supported (''^'' @ pfx) \<Longrightarrow> list_all (\<lambda>p. p \<noteq> CHR ''.'') pfx \<Longrightarrow>
   List_keys m None None docs pfx recursive
     = Some (filter (prefix pfx) (map doc_key docs), None)"
  by (simp add: List_keys_def Find_regex_def regex_match_def cursor_keys_map match_atoms_plain
        filter_map comp_def)

lemma List_keys_recursive:
  "List_keys m fault cursor_fault docs pfx True = List_keys m fault cursor_fault docs pfx False"
  by (simp add: List_keys_def)

lemma List_keys_spec_example:
  "List_keys host_a None None [rec_a1, rec_a2, rec_b1] ''a'' False
   = Some ([''a/1'', ''a/2''], None)"
  by (simp add: List_keys_def regex_supported_def regex_meta_def Find_regex_def regex_match_def
        utf8_continuation_def)

text \<open>
  A dot of the prefix takes a whole character of the key: the prefix \<^verbatim>\<open>.b\<close>
  matches the key made of the two bytes of a Latin e with acute accent and \<^verbatim>\<open>b\<close>.
\<close>

lemma List_keys_dot_takes_character:
  "List_keys host_a None None
     [\<lparr>doc_key = [CHR 0xC3, CHR 0xA9, CHR ''b''], doc_value = [], doc_ts = 0\<rparr>] ''.b'' False
   = Some ([[CHR 0xC3, CHR 0xA9, CHR ''b'']], None)"
  by (simp add: List_keys_def regex_supported_def regex_meta_def Find_regex_def regex_match_def
        utf8_continuation_def)

section \<open>Properties of the lock manager\<close>

subsection \<open>One turn of the loop\<close>

lemma ctx_Done_mono: "ctx_Done ctx t \<Longrightarrow> t \<le> t' \<Longrightarrow> ctx_Done ctx t'"
  by (cases ctx) auto

lemma Lock_iter_held:
  "held key (fault, docs) \<Longrightarrow> lock_key lock = key \<Longrightarrow> \<not> ctx_Done ctx now \<Longrightarrow>
   Lock_iter ctx key lock now fault docs = Retry"
  by (simp add: Lock_iter_def InsertOne_unique_def IsDuplicateKeyError_def)

lemma Lock_iter_done:
  "ctx_Done ctx now \<Longrightarrow>
   Lock_iter ctx key lock now fault docs =
     Return (Inl (Wrapped (''timeout acquiring lock for key '' @ key) (ctx_Err ctx)))"
  by (simp add: Lock_iter_def)

lemma Lock_iter_fault:
  "\<not> ctx_Done ctx now \<Longrightarrow> \<not> IsDuplicateKeyError e \<Longrightarrow>
   Lock_iter ctx key lock now (Some e) docs =
     Return (Inl (Wrapped (''error trying to acquire lock for key '' @ key) e))"
  by (simp add: Lock_iter_def InsertOne_unique_def)

lemma Lock_iter_free:
  "\<not> ctx_Done ctx now \<Longrightarrow> \<not> list_ex (\<lambda>d. lock_key d = lock_key lock) docs \<Longrightarrow>
   Lock_iter ctx key lock now None docs = Return (Inr (docs @ [lock]))"
  by (simp add: Lock_iter_def InsertOne_unique_def)

lemma lock_loop_fault_after_conflicts:
  "list_all (held key) pre \<Longrightarrow> lock_key lock = key \<Longrightarrow>
   \<not> ctx_Done ctx (now + 2 * Second * length pre) \<Longrightarrow> \<not> IsDuplicateKeyError e \<Longrightarrow>
   lock_loop ctx key lock (pre @ (Some e, docs) # rest) now =
     Some (Inl (Wrapped (''error trying to acquire lock for key '' @ key) e),
           now + 2 * Second * length pre)"
proof (induction pre arbitrary: now)
  case Nil
  then show ?case by (simp add: Lock_iter_fault)
next
  case (Cons a pre)
  obtain f ds where a: "a = (f, ds)" by (cases a)
  from Cons.prems have nd: "\<not> ctx_Done ctx now"
    using ctx_Done_mono [of ctx now "now + 2 * Second * length (a # pre)"] by auto
  from Cons.prems a have "Lock_iter ctx key lock now f ds = Retry"
    using nd by (intro Lock_iter_held) auto
  moreover have "lock_loop ctx key lock (pre @ (Some e, docs) # rest) (now + 2 * Second) =
     Some (Inl (Wrapped (''error trying to acquire lock for key '' @ key) e),
           now + 2 * Second + 2 * Second * length pre)"
    using Cons.prems by (intro Cons.IH) (auto simp: algebra_simps)
  ultimately show ?case using a by (simp add: algebra_simps)
qed

text \<open>
  Claim C5. When an insert fails with an error that is not a duplicate-key error,
  at the first turn or after any number of turns that met the key held,
  \<^verbatim>\<open>Lock\<close> returns at that very turn (no sleep, no further turn: the rest of
  the schedule is not looked at) with that error wrapped in a message that names
  the operation and the key.
\<close>

theorem Lock_fail_fast:
  "list_all (held key) pre \<Longrightarrow> \<not> ctx_Done ctx (now + 2 * Second * length pre) \<Longrightarrow>
   \<not> IsDuplicateKeyError e \<Longrightarrow>
   Lock m ctx key (pre @ (Some e, docs) # rest) now =
     Some (Inl (Wrapped (''error trying to acquire lock for key '' @ key) e),
           now + 2 * Second * length pre)"
  unfolding Lock_def
  by (rule lock_loop_fault_after_conflicts) (simp_all add: lock_document_def)

theorem Lock_fail_fast_witness:
  "list_all (held ''cert-x'') [(None, [lock_xb])]
   \<and> \<not> ctx_Done (WithDeadline (10 * Second)) (0 + 2 * Second * length [(None, [lock_xb])])
   \<and> \<not> IsDuplicateKeyError (MediumError ''unreachable'')
   \<and> Lock host_a (WithDeadline (10 * Second)) ''cert-x''
        ([(None, [lock_xb])] @ (Some (MediumError ''unreachable''), []) # [(None, [])]) 0
      = Some (Inl (Wrapped ''error trying to acquire lock for key cert-x'' (MediumError ''unreachable'')),
              2 * Second)"
  using Lock_fail_fast
    [where key = "''cert-x''" and pre = "[(None, [lock_xb])]" and ctx = "WithDeadline (10 * Second)"
       and now = 0 and e = "MediumError ''unreachable''" and m = host_a and docs = "[]"
       and rest = "[(None, [])]"]
  by (simp add: IsDuplicateKeyError_def Second_def)

subsection \<open>The lease written by a successful turn\<close>

lemma lock_loop_acquired:
  "lock_loop ctx key lock sched now = Some (Inr docs', T) \<Longrightarrow>
   \<exists>k docs. k < length sched \<and> T = now + 2 * Second * k \<and> docs' = docs @ [lock]"
proof (induction sched arbitrary: now)
  case Nil
  then show ?case by simp
next
  case (Cons a sched)
  obtain f ds where a: "a = (f, ds)" by (cases a)
  show ?case
  proof (cases "Lock_iter ctx key lock now f ds")
    case (Return r)
    with Cons.prems a have "r = Inr docs'" "T = now" by auto
    with Return have "\<exists>docs. docs' = docs @ [lock]"
      by (auto simp: Lock_iter_def InsertOne_unique_def split: if_splits option.splits sum.splits)
    with \<open>T = now\<close> show ?thesis by auto
  next
    case Retry
    with Cons.prems a have "lock_loop ctx key lock sched (now + 2 * Second) = Some (Inr docs', T)"
      by simp
    from Cons.IH [OF this] obtain k docs where
      "k < length sched" "T = now + 2 * Second + 2 * Second * k" "docs' = docs @ [lock]"
      by auto
    then have "Suc k < length (a # sched) \<and> T = now + 2 * Second * Suc k \<and> docs' = docs @ [lock]"
      by simp
    then show ?thesis by blast
  qed
qed

text \<open>
  Whenever \<^verbatim>\<open>Lock\<close> succeeds, at the turn number \<open>k\<close> and so at the time
  \<open>now + 2 * Second * k\<close>, the document it has inserted (the last of the
  collection) carries the expiry \<open>now + LockTTL m\<close>, made on entry.
\<close>

lemma Lock_expiry_from_entry:
  "Lock m ctx key sched now = Some (Inr docs', T) \<Longrightarrow>
   (\<exists>k. k < length sched \<and> T = now + 2 * Second * k)
   \<and> docs' \<noteq> []
   \<and> last docs' = \<lparr>lock_key = key, lock_instance = InstanceID m,
                     lock_expires_at = now + LockTTL m\<rparr>"
  unfolding Lock_def
  by (drule lock_loop_acquired) (auto simp: lock_document_def)

lemma lock_loop_acquire_after_conflicts:
  "list_all (held key) pre \<Longrightarrow> lock_key lock = key \<Longrightarrow>
   \<not> ctx_Done ctx (now + 2 * Second * length pre) \<Longrightarrow>
   \<not> list_ex (\<lambda>d. lock_key d = key) docs \<Longrightarrow>
   lock_loop ctx key lock (pre @ (None, docs) # rest) now =
     Some (Inr (docs @ [lock]), now + 2 * Second * length pre)"
proof (induction pre arbitrary: now)
  case Nil
  then show ?case by (simp add: Lock_iter_free)
next
  case (Cons a pre)
  obtain f ds where a: "a = (f, ds)" by (cases a)
  from Cons.prems have nd: "\<not> ctx_Done ctx now"
    using ctx_Done_mono [of ctx now "now + 2 * Second * length (a # pre)"] by auto
  from Cons.prems a have "Lock_iter ctx key lock now f ds = Retry"
    using nd by (intro Lock_iter_held) auto
  moreover have "lock_loop ctx key lock (pre @ (None, docs) # rest) (now + 2 * Second) =
     Some (Inr (docs @ [lock]), now + 2 * Second + 2 * Second * length pre)"
    using Cons.prems by (intro Cons.IH) (auto simp: algebra_simps)
  ultimately show ?case using a by (simp add: algebra_simps)
qed

text \<open>
  Claim C3 says that every turn of the loop of \<^verbatim>\<open>Lock\<close> computes the expiry
  anew, so that the successful turn writes its own time plus the lease duration.
  The code makes the expiration and the lock document once, before the loop, and
  inserts that same document at every turn, so the lease is shorter by the time
  waited. A caller that enters at time 0 and succeeds at its second turn, at 2 s,
  writes the expiry 60 s and not 62 s. A caller that enters at time 0, meets the key
  held by host b until 50 s and by host c after that, and succeeds at 62 s, writes
  the expiry 60 s: a lease that is over when it is written, and that a sweep of the
  store at that very time removes.
\<close>

theorem Lock_lease_not_renewed:
  "Lock host_a Background ''cert-x'' [(None, [lock_xb]), (None, [])] 0
     = Some (Inr [\<lparr>lock_key = ''cert-x'', lock_instance = ''host-a'', lock_expires_at = 60 * Second\<rparr>],
             2 * Second)
   \<and> 60 * Second \<noteq> 2 * Second + LockTTL host_a
   \<and> Lock host_a Background ''cert-x''
        (replicate 25 (None, [lock_xb]) @ replicate 6 (None, [lock_xc]) @ [(None, [])]) 0
     = Some (Inr [\<lparr>lock_key = ''cert-x'', lock_instance = ''host-a'', lock_expires_at = 60 * Second\<rparr>],
             62 * Second)
   \<and> 60 * Second \<noteq> 62 * Second + LockTTL host_a
   \<and> expire (62 * Second)
        [\<lparr>lock_key = ''cert-x'', lock_instance = ''host-a'', lock_expires_at = 60 * Second\<rparr>] = []"
proof -
  have two: "Lock host_a Background ''cert-x'' [(None, [lock_xb]), (None, [])] 0
     = Some (Inr [\<lparr>lock_key = ''cert-x'', lock_instance = ''host-a'', lock_expires_at = 60 * Second\<rparr>],
             2 * Second)"
    by (simp add: Lock_def lock_document_def Lock_iter_def InsertOne_unique_def IsDuplicateKeyError_def)
  have all_held: "list_all (held ''cert-x'') (replicate 25 (None, [lock_xb]) @ replicate 6 (None, [lock_xc]))"
    by (simp add: list_all_iff)
  have "lock_loop Background ''cert-x'' (lock_document host_a ''cert-x'' 0)
          ((replicate 25 (None, [lock_xb]) @ replicate 6 (None, [lock_xc])) @ (None, []) # []) 0
        = Some (Inr ([] @ [lock_document host_a ''cert-x'' 0]),
                0 + 2 * Second * length (replicate 25 (None, [lock_xb]) @ replicate 6 (None, [lock_xc])))"
    using all_held
      lock_loop_acquire_after_conflicts
        [where key = "''cert-x''" and lock = "lock_document host_a ''cert-x'' 0"
           and pre = "replicate 25 (None, [lock_xb]) @ replicate 6 (None, [lock_xc])"
           and ctx = Background and now = 0 and docs = "[]" and rest = "[]"]
    by (simp add: lock_document_def)
  then have late: "Lock host_a Background ''cert-x''
        (replicate 25 (None, [lock_xb]) @ replicate 6 (None, [lock_xc]) @ [(None, [])]) 0
     = Some (Inr [\<lparr>lock_key = ''cert-x'', lock_instance = ''host-a'', lock_expires_at = 60 * Second\<rparr>],
             62 * Second)"
    by (simp add: Lock_def lock_document_def)
  from two late show ?thesis by (simp add: expire_def Second_def)
qed

subsection \<open>Cancellation\<close>

lemma lock_loop_cancelled:
  "list_all (held key) sched \<Longrightarrow> lock_key lock = key \<Longrightarrow> sched \<noteq> [] \<Longrightarrow>
   d + 2 * Second \<le> now + 2 * Second * length sched \<Longrightarrow>
   ctx = WithCancel d \<or> ctx = WithDeadline d \<Longrightarrow>
   \<exists>T. lock_loop ctx key lock sched now =
         Some (Inl (Wrapped (''timeout acquiring lock for key '' @ key) (ctx_Err ctx)), T)
       \<and> d \<le> T \<and> (T = now \<or> T < d + 2 * Second)"
proof (induction sched arbitrary: now)
  case Nil
  then show ?case by simp
next
  case (Cons a sched)
  obtain f ds where a: "a = (f, ds)" by (cases a)
  from Cons.prems(5) have done_iff: "\<And>t. ctx_Done ctx t = (d \<le> t)" by auto
  show ?case
  proof (cases "d \<le> now")
    case True
    then have "ctx_Done ctx now" by (simp add: done_iff)
    then show ?thesis using a True by (simp add: Lock_iter_done)
  next
    case False
    then have nd: "\<not> ctx_Done ctx now" by (simp add: done_iff)
    from Cons.prems a have "Lock_iter ctx key lock now f ds = Retry"
      using nd by (intro Lock_iter_held) auto
    then have step: "lock_loop ctx key lock (a # sched) now =
        lock_loop ctx key lock sched (now + 2 * Second)"
      using a by simp
    have pos: "0 < Second" by (simp add: Second_def)
    from False Cons.prems(4) have ne: "sched \<noteq> []"
      by (cases sched) auto
    have "d + 2 * Second \<le> now + 2 * Second + 2 * Second * length sched"
      using Cons.prems(4) by (simp add: algebra_simps)
    with Cons.IH [of "now + 2 * Second"] Cons.prems ne
    obtain T where
      T: "lock_loop ctx key lock sched (now + 2 * Second) =
            Some (Inl (Wrapped (''timeout acquiring lock for key '' @ key) (ctx_Err ctx)), T)"
         "d \<le> T" "T = now + 2 * Second \<or> T < d + 2 * Second"
      by auto
    from T(3) False have "T < d + 2 * Second" by auto
    with T step show ?thesis by auto
  qed
qed

text \<open>
  Claim C4. Every turn of the loop of \<^verbatim>\<open>Lock\<close> starts with the check of
  \<^verbatim>\<open>ctx.Done()\<close>: at a turn where the context is done \<^verbatim>\<open>Lock\<close> returns
  the timeout error that wraps \<^verbatim>\<open>ctx.Err()\<close>, whatever the store would have
  answered, without inserting and without sleeping. So when the key is held at every
  turn and the context is cancelled at the time \<open>d\<close>, not before the entry, and
  the schedule reaches that time, \<^verbatim>\<open>Lock\<close> returns that error at a time \<open>T\<close>
  with \<open>d \<le> T < d + 2 s\<close>: the one sleep that may have been under way.
\<close>

theorem Lock_cancelled_in_bounded_time:
  "(ctx_Done ctx now \<longrightarrow>
      Lock m ctx key ((fault, docs) # rest) now =
        Some (Inl (Wrapped (''timeout acquiring lock for key '' @ key) (ctx_Err ctx)), now))
   \<and> (list_all (held key) sched \<and> now \<le> d \<and> d + 2 * Second \<le> now + 2 * Second * length sched
        \<and> (ctx = WithCancel d \<or> ctx = WithDeadline d) \<longrightarrow>
       (\<exists>T. Lock m ctx key sched now =
              Some (Inl (Wrapped (''timeout acquiring lock for key '' @ key) (ctx_Err ctx)), T)
            \<and> d \<le> T \<and> T < d + 2 * Second))"
proof (intro conjI impI)
  assume "ctx_Done ctx now"
  then show "Lock m ctx key ((fault, docs) # rest) now =
        Some (Inl (Wrapped (''timeout acquiring lock for key '' @ key) (ctx_Err ctx)), now)"
    by (simp add: Lock_def Lock_iter_done)
next
  assume h: "list_all (held key) sched \<and> now \<le> d \<and> d + 2 * Second \<le> now + 2 * Second * length sched
        \<and> (ctx = WithCancel d \<or> ctx = WithDeadline d)"
  then have ne: "sched \<noteq> []" by (auto simp: Second_def)
  from h have "lock_key (lock_document m key now) = key" by (simp add: lock_document_def)
  from lock_loop_cancelled [OF _ this ne, where d = d and ctx = ctx] h
  obtain T where "lock_loop ctx key (lock_document m key now) sched now =
         Some (Inl (Wrapped (''timeout acquiring lock for key '' @ key) (ctx_Err ctx)), T)"
       "d \<le> T" "T = now \<or> T < d + 2 * Second"
    by blast
  moreover from this h have "T < d + 2 * Second" by (auto simp: Second_def)
  ultimately show "\<exists>T. Lock m ctx key sched now =
              Some (Inl (Wrapped (''timeout acquiring lock for key '' @ key) (ctx_Err ctx)), T)
            \<and> d \<le> T \<and> T < d + 2 * Second"
    by (auto simp: Lock_def)
qed

theorem Lock_cancelled_in_bounded_time_witness:
  "ctx_Done (WithDeadline (3 * Second)) (4 * Second)
   \<and> list_all (held ''cert-x'') [(None, [lock_xb]), (None, [lock_xb]), (None, [lock_xb])]
   \<and> (0::nat) \<le> 3 * Second
   \<and> 3 * Second + 2 * Second
        \<le> 0 + 2 * Second * length [(None, [lock_xb]), (None, [lock_xb]), (None, [lock_xb])]
   \<and> Lock host_a (WithDeadline (3 * Second)) ''cert-x'' ((None, []) # []) (4 * Second)
      = Some (Inl (Wrapped ''timeout acquiring lock for key cert-x'' DeadlineExceeded), 4 * Second)
   \<and> (\<exists>T. Lock host_a (WithDeadline (3 * Second)) ''cert-x''
              [(None, [lock_xb]), (None, [lock_xb]), (None, [lock_xb])] 0
            = Some (Inl (Wrapped ''timeout acquiring lock for key cert-x'' DeadlineExceeded), T)
          \<and> 3 * Second \<le> T \<and> T < 3 * Second + 2 * Second)"
  using Lock_cancelled_in_bounded_time
    [where ctx = "WithDeadline (3 * Second)" and now = "4 * Second" and m = host_a
       and key = "''cert-x''" and fault = None and docs = "[]" and rest = "[]"]
    Lock_cancelled_in_bounded_time
    [where ctx = "WithDeadline (3 * Second)" and now = 0 and m = host_a and d = "3 * Second"
       and key = "''cert-x''" and sched = "[(None, [lock_xb]), (None, [lock_xb]), (None, [lock_xb])]"]
  by (simp add: Second_def)

subsection \<open>Unlock\<close>

lemma delete_first_keeps_others:
  "filter (\<lambda>d. \<not> P d) (snd (delete_first P docs)) = filter (\<lambda>d. \<not> P d) docs"
  by (induction docs) (auto split: prod.splits)

lemma delete_first_count:
  "fst (delete_first P docs) = (if list_ex P docs then 1 else 0)
   \<and> length (snd (delete_first P docs)) + fst (delete_first P docs) = length docs"
  by (induction docs) (auto split: prod.splits)

text \<open>
  Claim C2, as amended. With the store in working order \<^verbatim>\<open>Unlock(K)\<close> returns
  nil; it removes one document that matches both \<open>K\<close> and the caller's
  \<^verbatim>\<open>InstanceID\<close> when there is one, and every document that does not match both
  stays, in its place. When no document matches, \<^verbatim>\<open>Unlock\<close> still returns nil
  and the collection is unchanged. \<^verbatim>\<open>Unlock\<close> returns an error only when the
  delete itself fails, and then it is that error, wrapped with the operation and
  the key.
\<close>

theorem Unlock_scoped_by_holder:
  "(\<exists>docs'. Unlock m None docs key = Inr docs'
      \<and> filter (\<lambda>d. \<not> (lock_key d = key \<and> lock_instance d = InstanceID m)) docs'
          = filter (\<lambda>d. \<not> (lock_key d = key \<and> lock_instance d = InstanceID m)) docs
      \<and> length docs' + (if list_ex (\<lambda>d. lock_key d = key \<and> lock_instance d = InstanceID m) docs
                         then 1 else 0) = length docs)
   \<and> (\<not> list_ex (\<lambda>d. lock_key d = key \<and> lock_instance d = InstanceID m) others \<longrightarrow>
        Unlock m None others key = Inr others)
   \<and> Unlock m (Some e) docs key = Inl (Wrapped (''failed to release lock for key '' @ key) e)"
proof (intro conjI impI)
  let ?P = "\<lambda>d. lock_key d = key \<and> lock_instance d = InstanceID m"
  obtain n docs' where d: "delete_first ?P docs = (n, docs')"
    by (cases "delete_first ?P docs")
  with delete_first_keeps_others [of ?P docs] delete_first_count [of ?P docs]
  show "\<exists>docs'. Unlock m None docs key = Inr docs'
      \<and> filter (\<lambda>d. \<not> ?P d) docs' = filter (\<lambda>d. \<not> ?P d) docs
      \<and> length docs' + (if list_ex ?P docs then 1 else 0) = length docs"
    by (simp add: Unlock_def DeleteOne_def)
next
  assume "\<not> list_ex (\<lambda>d. lock_key d = key \<and> lock_instance d = InstanceID m) others"
  then show "Unlock m None others key = Inr others"
    by (simp add: Unlock_def DeleteOne_def delete_first_absent)
next
  show "Unlock m (Some e) docs key = Inl (Wrapped (''failed to release lock for key '' @ key) e)"
    by (simp add: Unlock_def DeleteOne_def)
qed

theorem Unlock_scoped_by_holder_witness:
  "\<not> list_ex (\<lambda>d. lock_key d = ''cert-x'' \<and> lock_instance d = InstanceID host_a) [lock_xb]
   \<and> Unlock host_a None [lock_xb] ''cert-x'' = Inr [lock_xb]
   \<and> Unlock host_b None [lock_xb] ''cert-x'' = Inr []
   \<and> Unlock host_a (Some (MediumError ''unreachable'')) [lock_xb] ''cert-x''
       = Inl (Wrapped ''failed to release lock for key cert-x'' (MediumError ''unreachable''))"
  using Unlock_scoped_by_holder
    [where m = host_a and docs = "[lock_xb]" and others = "[lock_xb]" and key = "''cert-x''"
       and e = "MediumError ''unreachable''"]
    Unlock_scoped_by_holder
    [where m = host_b and docs = "[lock_xb]" and others = "[]" and key = "''cert-x''"
       and e = "MediumError ''unreachable''"]
  by simp

text \<open>
  The claim as it was stated fails: host a releases a key that host b holds, or that
  nobody holds; no document matches, and \<^verbatim>\<open>Unlock\<close> returns nil, not an error.
\<close>

theorem Unlock_no_match_counterexample:
  "\<not> list_ex (\<lambda>d. lock_key d = ''cert-x'' \<and> lock_instance d = InstanceID host_a) [lock_xb]
   \<and> Unlock host_a None [lock_xb] ''cert-x'' = Inr [lock_xb]
   \<and> Unlock host_a None [] ''cert-x'' = Inr []"
  by (simp add: Unlock_def DeleteOne_def)

subsection \<open>The holder identity\<close>

lemma delete_first_snoc:
  "\<not> list_ex P docs \<Longrightarrow> P d \<Longrightarrow> delete_first P (docs @ [d]) = (1, docs)"
  by (induction docs) auto

text \<open>
  Claim C10. A storage that \<^verbatim>\<open>NewMongoStorage\<close> returns has the host name as
  its \<^verbatim>\<open>InstanceID\<close>, and the empty string when the lookup of the host name
  failed. Two storages built where the host name is the same have the same
  \<^verbatim>\<open>InstanceID\<close>, so when one of them has taken the lock of a free key, an
  \<^verbatim>\<open>Unlock\<close> of that key by the other deletes the lock document.
\<close>

theorem InstanceID_is_hostname:
  "(\<exists>m. NewMongoStorage None (Inl e) db = Inr m \<and> InstanceID m = [])
   \<and> (\<exists>m. NewMongoStorage None (Inr h) db = Inr m \<and> InstanceID m = h)
   \<and> (NewMongoStorage None (Inr h) db1 = Inr m1 \<and> NewMongoStorage None (Inr h) db2 = Inr m2
        \<and> \<not> list_ex (\<lambda>d. lock_key d = key) docs \<and> \<not> ctx_Done ctx now \<longrightarrow>
       InstanceID m1 = InstanceID m2
       \<and> Lock m1 ctx key ((None, docs) # rest) now = Some (Inr (docs @ [lock_document m1 key now]), now)
       \<and> Unlock m2 None (docs @ [lock_document m1 key now]) key = Inr docs)"
proof (intro conjI impI)
  show "\<exists>m. NewMongoStorage None (Inl e) db = Inr m \<and> InstanceID m = []"
    by (simp add: NewMongoStorage_def os_Hostname_def)
  show "\<exists>m. NewMongoStorage None (Inr h) db = Inr m \<and> InstanceID m = h"
    by (simp add: NewMongoStorage_def os_Hostname_def)
next
  assume h: "NewMongoStorage None (Inr h) db1 = Inr m1 \<and> NewMongoStorage None (Inr h) db2 = Inr m2
        \<and> \<not> list_ex (\<lambda>d. lock_key d = key) docs \<and> \<not> ctx_Done ctx now"
  then have ids: "InstanceID m1 = h" "InstanceID m2 = h"
    by (auto simp: NewMongoStorage_def os_Hostname_def)
  then show "InstanceID m1 = InstanceID m2" by simp
  from h show "Lock m1 ctx key ((None, docs) # rest) now
      = Some (Inr (docs @ [lock_document m1 key now]), now)"
    by (simp add: Lock_def Lock_iter_free lock_document_def)
  from h have "\<not> list_ex (\<lambda>d. lock_key d = key \<and> lock_instance d = InstanceID m2) docs"
    by (auto simp: list_ex_iff)
  then have "delete_first (\<lambda>d. lock_key d = key \<and> lock_instance d = InstanceID m2)
      (docs @ [lock_document m1 key now]) = (1, docs)"
    by (rule delete_first_snoc) (simp add: lock_document_def ids)
  then show "Unlock m2 None (docs @ [lock_document m1 key now]) key = Inr docs"
    by (simp add: Unlock_def DeleteOne_def)
qed

theorem InstanceID_is_hostname_witness:
  "NewMongoStorage None (Inr ''host-a'') ''db'' = Inr host_a
   \<and> \<not> list_ex (\<lambda>d. lock_key d = ''cert-x'') [] \<and> \<not> ctx_Done Background 0
   \<and> (\<exists>m. NewMongoStorage None (Inl (MediumError ''no hostname'')) ''db'' = Inr m \<and> InstanceID m = [])
   \<and> Lock host_a Background ''cert-x'' ((None, []) # []) 0
        = Some (Inr ([] @ [lock_document host_a ''cert-x'' 0]), 0)
   \<and> Unlock host_a None ([] @ [lock_document host_a ''cert-x'' 0]) ''cert-x'' = Inr []"
proof -
  have new: "NewMongoStorage None (Inr ''host-a'') ''db'' = Inr host_a"
    by (simp add: NewMongoStorage_def os_Hostname_def)
  with InstanceID_is_hostname
    [where e = "MediumError ''no hostname''" and db = "''db''" and h = "''host-a''"
       and ?db1.0 = "''db''" and ?db2.0 = "''db''" and ?m1.0 = host_a and ?m2.0 = host_a
       and key = "''cert-x''" and docs = "[]" and ctx = Background and now = 0 and rest = "[]"]
  show ?thesis by simp
qed

subsection \<open>Mutual exclusion\<close>





















text \<open>
  The scenario of two processes: both call \<^verbatim>\<open>Lock("cert-x")\<close> at time 0 and the
  insert of the process on host a lands first; the process on host b retries every
  2 s; host a releases at 5 s, and the next turn of host b, at 6 s, succeeds.
\<close>

lemma two_process_scenario:
  "run [try_a 0, try_b 0, try_b (2 * Second), try_b (4 * Second),
        Release host_a ''cert-x'' None, try_b (6 * Second)] []
   = ([Acquired, Conflict, Conflict, Conflict, Released, Acquired],
      [\<lparr>lock_key = ''cert-x'', lock_instance = ''host-b'', lock_expires_at = 60 * Second\<rparr>])"
  by (simp add: Lock_iter_def InsertOne_unique_def IsDuplicateKeyError_def lock_document_def
        Unlock_def DeleteOne_def)

text \<open>
  A lease that is over on arrival: host a enters at time 0 and its insert succeeds
  at 62 s with the expiry 60 s; a sweep at 62 s removes the document, and a turn of
  host b succeeds at once, with no release by host a.
\<close>

lemma lease_over_on_arrival_scenario:
  "run [try_a (62 * Second), Sweep (62 * Second),
        Attempt host_b Background ''cert-x'' (62 * Second) (62 * Second) None] []
   = ([Acquired, Swept, Acquired],
      [\<lparr>lock_key = ''cert-x'', lock_instance = ''host-b'', lock_expires_at = 122 * Second\<rparr>])"
  by (simp add: Lock_iter_def InsertOne_unique_def IsDuplicateKeyError_def lock_document_def
        expire_def Second_def)

end
